theory Spec2Isabelle
  imports Complex_Main
begin

section \<open>Values, errors, series and frames\<close>

text \<open>
  A cell of a frame is a float: either the missing value NaN or a number.  Comparisons
  of floats are exact, so numbers are read as reals; NaN compares false with everything.
\<close>

datatype pyfloat = NaN | Val real

datatype pyobj = PyStr string | PyInt int

text \<open>
  The exceptions the analysed lines can raise: a missing column or dictionary key
  (\<open>KeyError\<close>, carrying the key), \<open>max()\<close> of an empty iterable (\<open>ValueError\<close>) and an
  ordering comparison with \<open>None\<close> (\<open>TypeError\<close>).
\<close>

datatype py_error = KeyError pyobj | ValueError | TypeError

type_synonym timestamp = int

record series =
  s_name :: string
  s_index :: "timestamp list"
  s_values :: "pyfloat list"

record frame =
  index :: "timestamp list"
  columns :: "(string \<times> pyfloat list) list"

text \<open>Every column of a frame has one cell per index label, and column names are unique.\<close>

definition wf_frame :: "frame \<Rightarrow> bool" where
  "wf_frame df =
     (distinct (map fst (columns df)) \<and>
      list_all (\<lambda>c. length (snd c) = length (index df)) (columns df))"

text \<open>\<open>df[name]\<close>: the column as a series on the frame's index, or \<open>KeyError\<close>.\<close>

definition getitem :: "frame \<Rightarrow> string \<Rightarrow> py_error + series" where
  "getitem df name =
     (case map_of (columns df) name of
        None \<Rightarrow> Inl (KeyError (PyStr name))
      | Some vs \<Rightarrow> Inr \<lparr>s_name = name, s_index = index df, s_values = vs\<rparr>)"

text \<open>
  \<open>s.shift(periods)\<close>: the index stays, the value at position \<open>i\<close> becomes the old value at
  position \<open>i - periods\<close>, and NaN where that position does not exist.
\<close>

definition shift :: "series \<Rightarrow> int \<Rightarrow> series" where
  "shift s periods =
     s\<lparr>s_values :=
         map (\<lambda>i. let j = int i - periods
                   in if 0 \<le> j \<and> j < int (length (s_values s))
                      then s_values s ! nat j else NaN)
             [0..<length (s_values s)]\<rparr>"

text \<open>
  \<open>pd.concat([a, b], axis=1)\<close> for two series on one and the same index (here both come
  from \<open>df_merged\<close>, and \<open>shift\<close> keeps the index): the columns side by side.
\<close>

definition concat_axis1 :: "series \<Rightarrow> series \<Rightarrow> frame" where
  "concat_axis1 a b =
     \<lparr>index = s_index a, columns = [(s_name a, s_values a), (s_name b, s_values b)]\<rparr>"

definition notna :: "pyfloat \<Rightarrow> bool" where
  "notna v = (v \<noteq> NaN)"

definition row_complete :: "frame \<Rightarrow> nat \<Rightarrow> bool" where
  "row_complete df i = list_all (\<lambda>c. notna (snd c ! i)) (columns df)"

definition take_rows :: "nat list \<Rightarrow> 'a list \<Rightarrow> 'a list" where
  "take_rows rows xs = map (\<lambda>i. xs ! i) rows"

text \<open>\<open>df.dropna()\<close>: the rows without a NaN cell, in order.\<close>

definition dropna :: "frame \<Rightarrow> frame" where
  "dropna df =
     (let keep = filter (row_complete df) [0..<length (index df)]
      in \<lparr>index = take_rows keep (index df),
          columns = map (\<lambda>c. (fst c, take_rows keep (snd c))) (columns df)\<rparr>)"

text \<open>\<open>df.empty\<close>: an axis of length 0.\<close>

definition frame_empty :: "frame \<Rightarrow> bool" where
  "frame_empty df = (index df = [] \<or> columns df = [])"

section \<open>Dictionaries keyed by lag\<close>

text \<open>
  A Python dict keeps insertion order, and \<open>max\<close> scans it in that order, so the
  Correlation Map is an association list.
\<close>

type_synonym corr_map = "(int \<times> pyfloat) list"

text \<open>\<open>d[k] = v\<close>: overwrite in place, or append a new key.\<close>

fun dict_set :: "('k \<times> 'v) list \<Rightarrow> 'k \<Rightarrow> 'v \<Rightarrow> ('k \<times> 'v) list" where
  "dict_set [] k v = [(k, v)]"
| "dict_set ((k', v') # d) k v =
     (if k' = k then (k, v) # d else (k', v') # dict_set d k v)"

text \<open>\<open>d.get(k)\<close>: the value, or \<open>None\<close>.\<close>

definition dict_get :: "('k \<times> 'v) list \<Rightarrow> 'k \<Rightarrow> 'v option" where
  "dict_get d k = map_of d k"

text \<open>\<open>d[k]\<close>: the value, or \<open>KeyError\<close>.\<close>

definition dict_getitem :: "corr_map \<Rightarrow> int \<Rightarrow> py_error + pyfloat" where
  "dict_getitem d k = (case map_of d k of None \<Rightarrow> Inl (KeyError (PyInt k)) | Some v \<Rightarrow> Inr v)"

section \<open>The lag sweep\<close>

text \<open>
  One iteration of the loop of \<open>compute_lag_correlations\<close> (lines 70 to 74).  The
  statistics library's \<open>Series.corr\<close> is not part of the repository; it is the
  parameter \<open>corr\<close>, applied to the values of the two columns of \<open>aligned\<close>.
\<close>

definition lag_body ::
  "(pyfloat list \<Rightarrow> pyfloat list \<Rightarrow> pyfloat) \<Rightarrow> frame \<Rightarrow> corr_map \<Rightarrow> int \<Rightarrow> py_error + corr_map"
where
  "lag_body corr df_merged correlations lag =
     (case getitem df_merged ''close_btc'' of
        Inl e \<Rightarrow> Inl e
      | Inr btc \<Rightarrow>
          let shifted_btc = shift btc (- lag) in
          (case getitem df_merged ''close_m2'' of
             Inl e \<Rightarrow> Inl e
           | Inr m2 \<Rightarrow>
               let aligned = dropna (concat_axis1 m2 shifted_btc) in
               if \<not> frame_empty aligned then
                 (case getitem aligned ''close_m2'' of
                    Inl e \<Rightarrow> Inl e
                  | Inr x \<Rightarrow>
                      (case getitem aligned ''close_btc'' of
                         Inl e \<Rightarrow> Inl e
                       | Inr y \<Rightarrow>
                           Inr (dict_set correlations lag (corr (s_values x) (s_values y)))))
               else Inr correlations))"

text \<open>The \<open>for\<close> loop: the first exception ends it.\<close>

fun lag_loop ::
  "(pyfloat list \<Rightarrow> pyfloat list \<Rightarrow> pyfloat) \<Rightarrow> frame \<Rightarrow> int list \<Rightarrow> corr_map \<Rightarrow> py_error + corr_map"
where
  "lag_loop corr df_merged [] correlations = Inr correlations"
| "lag_loop corr df_merged (lag # lags) correlations =
     (case lag_body corr df_merged correlations lag of
        Inl e \<Rightarrow> Inl e
      | Inr correlations' \<Rightarrow> lag_loop corr df_merged lags correlations')"

text \<open>\<open>range(1, max_lag + 1)\<close> is \<open>[1..max_lag]\<close>, empty when \<open>max_lag < 1\<close>.\<close>

definition compute_lag_correlations ::
  "(pyfloat list \<Rightarrow> pyfloat list \<Rightarrow> pyfloat) \<Rightarrow> frame \<Rightarrow> int \<Rightarrow> py_error + corr_map"
where
  "compute_lag_correlations corr df_merged max_lag = lag_loop corr df_merged [1..max_lag] []"

section \<open>Selecting the optimal lag\<close>

text \<open>
  \<open>a > b\<close> on what \<open>correlations.get\<close> returns: false as soon as a NaN is involved,
  \<open>TypeError\<close> when a side is \<open>None\<close>.
\<close>

fun py_gt :: "pyfloat option \<Rightarrow> pyfloat option \<Rightarrow> py_error + bool" where
  "py_gt (Some (Val a)) (Some (Val b)) = Inr (b < a)"
| "py_gt (Some NaN) (Some _) = Inr False"
| "py_gt (Some _) (Some NaN) = Inr False"
| "py_gt None _ = Inl TypeError"
| "py_gt _ None = Inl TypeError"

text \<open>
  The built-in \<open>max(iterable, key=...)\<close>: the first item is the running maximum, and a
  later item replaces it only when its key is strictly greater.
\<close>

fun max_scan :: "('a \<Rightarrow> pyfloat option) \<Rightarrow> 'a \<Rightarrow> 'a list \<Rightarrow> py_error + 'a" where
  "max_scan key best [] = Inr best"
| "max_scan key best (x # xs) =
     (case py_gt (key x) (key best) of
        Inl e \<Rightarrow> Inl e
      | Inr gt \<Rightarrow> max_scan key (if gt then x else best) xs)"

definition py_max :: "('a \<Rightarrow> pyfloat option) \<Rightarrow> 'a list \<Rightarrow> py_error + 'a" where
  "py_max key xs = (case xs of [] \<Rightarrow> Inl ValueError | x # rest \<Rightarrow> max_scan key x rest)"

text \<open>Lines 140 and 141 of \<open>plot_data\<close>: the Optimal Lag Result of a Correlation Map.\<close>

definition optimal_lag_result :: "corr_map \<Rightarrow> py_error + (int \<times> pyfloat)" where
  "optimal_lag_result correlations =
     (case py_max (dict_get correlations) (map fst correlations) of
        Inl e \<Rightarrow> Inl e
      | Inr optimal_lag \<Rightarrow>
          (case dict_getitem correlations optimal_lag of
             Inl e \<Rightarrow> Inl e
           | Inr optimal_corr \<Rightarrow> Inr (optimal_lag, optimal_corr)))"

text \<open>Lines 139 to 141: the sweep, then the selection.\<close>

definition analyze ::
  "(pyfloat list \<Rightarrow> pyfloat list \<Rightarrow> pyfloat) \<Rightarrow> frame \<Rightarrow> int
     \<Rightarrow> py_error + (corr_map \<times> int \<times> pyfloat)"
where
  "analyze corr df_merged max_lag =
     (case compute_lag_correlations corr df_merged max_lag of
        Inl e \<Rightarrow> Inl e
      | Inr correlations \<Rightarrow>
          (case optimal_lag_result correlations of
             Inl e \<Rightarrow> Inl e
           | Inr r \<Rightarrow> Inr (correlations, r)))"

section \<open>The merged frame of \<open>plot_data\<close>\<close>

text \<open>\<open>df.rename(columns={old: new})\<close>.\<close>

definition rename_column :: "string \<Rightarrow> string \<Rightarrow> frame \<Rightarrow> frame" where
  "rename_column old new df =
     df\<lparr>columns := map (\<lambda>c. (if fst c = old then new else fst c, snd c)) (columns df)\<rparr>"

text \<open>
  \<open>pd.merge(l, r, left_index=True, right_index=True, how='inner')\<close> for frames without a
  common column name: the pairs of rows with equal labels, the columns of \<open>l\<close> followed by
  those of \<open>r\<close>.
\<close>

definition merge_inner :: "frame \<Rightarrow> frame \<Rightarrow> frame" where
  "merge_inner l r =
     (let pairs = concat (map (\<lambda>i. map (\<lambda>j. (i, j))
                     (filter (\<lambda>j. index r ! j = index l ! i) [0..<length (index r)]))
                   [0..<length (index l)])
      in \<lparr>index = map (\<lambda>p. index l ! fst p) pairs,
          columns = map (\<lambda>c. (fst c, take_rows (map fst pairs) (snd c))) (columns l) @
                    map (\<lambda>c. (fst c, take_rows (map snd pairs) (snd c))) (columns r)\<rparr>)"

definition MAX_LAG :: int where
  "MAX_LAG = 180"

text \<open>
  Lines 135 to 137 of \<open>plot_data\<close>: the merged frame, from the two frames the loader
  returned.  \<open>load_and_filter_csv\<close> returns \<open>df[[value_col]]\<close>, a frame with the one
  column \<open>close\<close>.
\<close>

definition merged_frame :: "frame \<Rightarrow> frame \<Rightarrow> frame" where
  "merged_frame df_m2 df_stock =
     merge_inner (rename_column ''close'' ''close_m2'' df_m2)
                 (rename_column ''close'' ''close_stock'' df_stock)"

text \<open>\<open>plot_data\<close> up to line 141.\<close>

definition plot_data ::
  "(pyfloat list \<Rightarrow> pyfloat list \<Rightarrow> pyfloat) \<Rightarrow> frame \<Rightarrow> frame
     \<Rightarrow> py_error + (corr_map \<times> int \<times> pyfloat)"
where
  "plot_data corr df_m2 df_stock =
     (let df_merged = merged_frame df_m2 df_stock
      in analyze corr df_merged MAX_LAG)"

section \<open>The Pearson coefficient\<close>

text \<open>
  The sample mean, the sample covariance (divisor \<open>n - 1\<close>) and the standard deviation,
  the ingredients of the coefficient below.
\<close>

definition mean :: "real list \<Rightarrow> real" where
  "mean xs = sum_list xs / real (length xs)"

definition covariance :: "real list \<Rightarrow> real list \<Rightarrow> real" where
  "covariance xs ys =
     sum_list (map (\<lambda>p. (fst p - mean xs) * (snd p - mean ys)) (zip xs ys))
       / (real (length xs) - 1)"

definition std :: "real list \<Rightarrow> real" where
  "std xs = sqrt (covariance xs xs)"

text \<open>The rows on which both values are numbers.\<close>

fun valid_pairs :: "pyfloat list \<Rightarrow> pyfloat list \<Rightarrow> (real \<times> real) list" where
  "valid_pairs (Val x # xs) (Val y # ys) = (x, y) # valid_pairs xs ys"
| "valid_pairs (x # xs) (y # ys) = valid_pairs xs ys"
| "valid_pairs xs ys = []"

text \<open>
  Modelled from the spec: the statistics library's \<open>Series.corr\<close>, which the sweep
  calls and which is not part of the repository.  The spec: the coefficient is the
  covariance over the product of the standard deviations, and a segment with zero
  variance yields the undefined value NaN.  It is taken over the reals; a single row
  has no variance either.
\<close>

definition pearson :: "pyfloat list \<Rightarrow> pyfloat list \<Rightarrow> pyfloat" where
  "pearson xs ys =
     (let ps = valid_pairs xs ys; us = map fst ps; vs = map snd ps
      in if length ps < 2 \<or> covariance us us = 0 \<or> covariance vs vs = 0 then NaN
         else Val (covariance us vs / (std us * std vs)))"

section \<open>The specification's wording\<close>

text \<open>
  Shifting series B backward by \<open>k\<close> time steps: B's value at row \<open>t + k\<close> is associated
  with row \<open>t\<close>; the last \<open>k\<close> rows have no value.
\<close>

definition spec_shift_back :: "nat \<Rightarrow> pyfloat list \<Rightarrow> pyfloat list" where
  "spec_shift_back k b =
     map (\<lambda>t. if t + k < length b then b ! (t + k) else NaN) [0..<length b]"

text \<open>
  The inner join of series A with the shifted B, without the rows where either value is
  missing: the pairs of values of the joined rows, in order.
\<close>

definition spec_joined :: "pyfloat list \<Rightarrow> pyfloat list \<Rightarrow> nat \<Rightarrow> (pyfloat \<times> pyfloat) list" where
  "spec_joined a b k =
     filter (\<lambda>r. fst r \<noteq> NaN \<and> snd r \<noteq> NaN) (zip a (spec_shift_back k b))"

text \<open>The finite coefficients of a Correlation Map, and the maximum finite value.\<close>

fun finite_values :: "corr_map \<Rightarrow> real list" where
  "finite_values [] = []"
| "finite_values ((k, Val r) # m) = r # finite_values m"
| "finite_values ((k, NaN) # m) = finite_values m"

definition spec_max_finite :: "corr_map \<Rightarrow> real" where
  "spec_max_finite m = Max (set (finite_values m))"

text \<open>The smallest lag whose coefficient is the value \<open>v\<close>.\<close>

definition spec_smallest_lag :: "corr_map \<Rightarrow> real \<Rightarrow> int" where
  "spec_smallest_lag m v = Min (set (map fst (filter (\<lambda>e. snd e = Val v) m)))"

text \<open>
  The Correlation Map of the algorithm of the specification: for each lag from 1 to \<open>L\<close>
  in turn, the coefficient of the two joined columns when the joined set is not empty,
  and no entry otherwise.
\<close>

definition spec_correlation_map ::
  "(pyfloat list \<Rightarrow> pyfloat list \<Rightarrow> pyfloat) \<Rightarrow> pyfloat list \<Rightarrow> pyfloat list \<Rightarrow> int \<Rightarrow> corr_map"
where
  "spec_correlation_map corr a b L =
     map (\<lambda>k. (k, corr (map fst (spec_joined a b (nat k))) (map snd (spec_joined a b (nat k)))))
         (filter (\<lambda>k. spec_joined a b (nat k) \<noteq> []) [1..L])"

section \<open>Sample data\<close>

definition sample_frame :: frame where
  "sample_frame =
     \<lparr>index = [1, 2, 3],
      columns = [(''close_m2'', [Val 1, Val 2, Val 4]), (''close_btc'', [Val 5, Val 7, Val 8])]\<rparr>"

definition single_row_frame :: frame where
  "single_row_frame =
     \<lparr>index = [1], columns = [(''close_m2'', [Val 1]), (''close_btc'', [Val 2])]\<rparr>"

definition loaded_m2 :: frame where
  "loaded_m2 = \<lparr>index = [1, 2, 3], columns = [(''close'', [Val 1, Val 2, Val 4])]\<rparr>"

definition loaded_stock :: frame where
  "loaded_stock = \<lparr>index = [2, 3, 4], columns = [(''close'', [Val 5, Val 7, Val 8])]\<rparr>"

definition no_overlap_frame :: frame where
  "no_overlap_frame =
     \<lparr>index = [1, 2], columns = [(''close_m2'', [Val 1, Val 2]), (''close_btc'', [Val 3, NaN])]\<rparr>"

section \<open>The sweep computes the map of the specification\<close>

lemma zip_nth_map:
  "length xs = length ys \<Longrightarrow> zip xs ys = map (\<lambda>i. (xs ! i, ys ! i)) [0..<length xs]"
  by (rule nth_equalityI) simp_all

text \<open>A shift by \<open>- k\<close> is the backward shift of the specification.\<close>

lemma shift_neg:
  assumes k: "0 \<le> k"
  shows "s_values (shift s (- k)) = spec_shift_back (nat k) (s_values s)"
proof -
  have "(let j = int i - (- k)
         in if 0 \<le> j \<and> j < int (length (s_values s)) then s_values s ! nat j else NaN)
      = (if i + nat k < length (s_values s) then s_values s ! (i + nat k) else NaN)" for i
  proof -
    have "nat (int i + k) = i + nat k"
      using k by (simp add: nat_add_distrib)
    moreover have "(int i + k < int (length (s_values s))) = (i + nat k < length (s_values s))"
      using k by linarith
    ultimately show ?thesis
      using k by (simp add: Let_def)
  qed
  then show ?thesis
    unfolding shift_def spec_shift_back_def by simp
qed

lemma length_spec_shift_back: "length (spec_shift_back k b) = length b"
  by (simp add: spec_shift_back_def)

lemma spec_joined_rows:
  assumes "length a = length b"
  shows "spec_joined a b k =
    map (\<lambda>i. (a ! i, spec_shift_back k b ! i))
      (filter (\<lambda>i. a ! i \<noteq> NaN \<and> spec_shift_back k b ! i \<noteq> NaN) [0..<length a])"
proof -
  have "zip a (spec_shift_back k b) = map (\<lambda>i. (a ! i, spec_shift_back k b ! i)) [0..<length a]"
    using assms by (intro zip_nth_map) (simp add: length_spec_shift_back)
  then show ?thesis
    by (simp add: spec_joined_def filter_map comp_def)
qed

lemma map_of_wf_length:
  "wf_frame df \<Longrightarrow> map_of (columns df) name = Some vs \<Longrightarrow> length vs = length (index df)"
  by (auto simp: wf_frame_def list_all_iff dest!: map_of_SomeD)

text \<open>One iteration on a frame that has both columns: it never raises.\<close>

lemma lag_body_ok:
  assumes wf: "wf_frame df"
    and a: "map_of (columns df) ''close_m2'' = Some a"
    and b: "map_of (columns df) ''close_btc'' = Some b"
    and k: "0 \<le> k"
  shows "lag_body corr df acc k =
     Inr (if spec_joined a b (nat k) \<noteq> []
          then dict_set acc k
                 (corr (map fst (spec_joined a b (nat k))) (map snd (spec_joined a b (nat k))))
          else acc)"
proof -
  let ?b' = "spec_shift_back (nat k) b"
  let ?keep = "filter (\<lambda>i. a ! i \<noteq> NaN \<and> ?b' ! i \<noteq> NaN) [0..<length a]"
  have la: "length a = length (index df)" and lb: "length b = length (index df)"
    using wf a b by (auto dest: map_of_wf_length)
  have sj: "spec_joined a b (nat k) = map (\<lambda>i. (a ! i, ?b' ! i)) ?keep"
    using la lb by (simp add: spec_joined_rows)
  have g1: "getitem df ''close_btc'' =
      Inr \<lparr>s_name = ''close_btc'', s_index = index df, s_values = b\<rparr>"
    using b by (simp add: getitem_def)
  have g2: "getitem df ''close_m2'' =
      Inr \<lparr>s_name = ''close_m2'', s_index = index df, s_values = a\<rparr>"
    using a by (simp add: getitem_def)
  have sh: "shift \<lparr>s_name = ''close_btc'', s_index = index df, s_values = b\<rparr> (- k)
      = \<lparr>s_name = ''close_btc'', s_index = index df, s_values = ?b'\<rparr>"
    using shift_neg[OF k, of "\<lparr>s_name = ''close_btc'', s_index = index df, s_values = b\<rparr>"]
    by (simp add: shift_def)
  let ?cc = "concat_axis1 \<lparr>s_name = ''close_m2'', s_index = index df, s_values = a\<rparr>
       \<lparr>s_name = ''close_btc'', s_index = index df, s_values = ?b'\<rparr>"
  have rc: "row_complete ?cc = (\<lambda>i. a ! i \<noteq> NaN \<and> ?b' ! i \<noteq> NaN)"
    by (rule ext) (simp add: row_complete_def concat_axis1_def notna_def)
  have dn: "dropna ?cc = \<lparr>index = take_rows ?keep (index df),
        columns = [(''close_m2'', take_rows ?keep a), (''close_btc'', take_rows ?keep ?b')]\<rparr>"
    unfolding dropna_def rc by (simp add: concat_axis1_def la Let_def)
  have em: "frame_empty (dropna ?cc) = (?keep = [])"
    unfolding dn by (simp add: frame_empty_def take_rows_def)
  have x: "getitem (dropna ?cc) ''close_m2'' =
      Inr \<lparr>s_name = ''close_m2'', s_index = take_rows ?keep (index df),
           s_values = take_rows ?keep a\<rparr>"
    unfolding dn by (simp add: getitem_def)
  have y: "getitem (dropna ?cc) ''close_btc'' =
      Inr \<lparr>s_name = ''close_btc'', s_index = take_rows ?keep (index df),
           s_values = take_rows ?keep ?b'\<rparr>"
    unfolding dn by (simp add: getitem_def)
  have f: "map fst (spec_joined a b (nat k)) = take_rows ?keep a"
    and s: "map snd (spec_joined a b (nat k)) = take_rows ?keep ?b'"
    and e: "(spec_joined a b (nat k) = []) = (?keep = [])"
    unfolding sj by (simp_all add: take_rows_def comp_def)
  show ?thesis
    by (simp add: lag_body_def g1 g2 sh Let_def em x y f s e)
qed

lemma dict_set_fresh: "k \<notin> fst ` set d \<Longrightarrow> dict_set d k v = d @ [(k, v)]"
  by (induction d) auto

lemma lag_loop_ok:
  assumes wf: "wf_frame df"
    and a: "map_of (columns df) ''close_m2'' = Some a"
    and b: "map_of (columns df) ''close_btc'' = Some b"
  shows "\<forall>k\<in>set ks. 0 \<le> k \<Longrightarrow> distinct ks \<Longrightarrow> fst ` set acc \<inter> set ks = {} \<Longrightarrow>
    lag_loop corr df ks acc =
      Inr (acc @ map (\<lambda>k. (k, corr (map fst (spec_joined a b (nat k)))
                                   (map snd (spec_joined a b (nat k)))))
                  (filter (\<lambda>k. spec_joined a b (nat k) \<noteq> []) ks))"
proof (induction ks arbitrary: acc)
  case Nil
  then show ?case by simp
next
  case (Cons k ks)
  have k: "0 \<le> k" and fresh: "k \<notin> fst ` set acc"
    using Cons.prems by auto
  let ?c = "corr (map fst (spec_joined a b (nat k))) (map snd (spec_joined a b (nat k)))"
  let ?acc' = "if spec_joined a b (nat k) \<noteq> [] then acc @ [(k, ?c)] else acc"
  have body: "lag_body corr df acc k = Inr ?acc'"
    using lag_body_ok[OF wf a b k, of corr acc] fresh by (simp add: dict_set_fresh)
  have "fst ` set ?acc' \<inter> set ks = {}"
    using Cons.prems by auto
  with Cons.IH[of ?acc'] Cons.prems
  have "lag_loop corr df ks ?acc' =
      Inr (?acc' @ map (\<lambda>k. (k, corr (map fst (spec_joined a b (nat k)))
                                     (map snd (spec_joined a b (nat k)))))
                  (filter (\<lambda>k. spec_joined a b (nat k) \<noteq> []) ks))"
    by simp
  then show ?case
    using body by simp
qed

lemma compute_closed_form:
  assumes wf: "wf_frame df"
    and a: "map_of (columns df) ''close_m2'' = Some a"
    and b: "map_of (columns df) ''close_btc'' = Some b"
  shows "compute_lag_correlations corr df L = Inr (spec_correlation_map corr a b L)"
  unfolding compute_lag_correlations_def spec_correlation_map_def
  using lag_loop_ok[OF wf a b, of "[1..L]" "[]" corr] by simp

lemma dict_get_spec_map:
  "dict_get (spec_correlation_map corr a b L) k =
     (if 1 \<le> k \<and> k \<le> L \<and> spec_joined a b (nat k) \<noteq> []
      then Some (corr (map fst (spec_joined a b (nat k))) (map snd (spec_joined a b (nat k))))
      else None)"
  unfolding dict_get_def spec_correlation_map_def
  by (simp add: map_of_map_restrict restrict_map_def)

lemma keys_spec_map:
  "set (map fst (spec_correlation_map corr a b L)) =
     {k. 1 \<le> k \<and> k \<le> L \<and> spec_joined a b (nat k) \<noteq> []}"
  unfolding spec_correlation_map_def by (auto simp: comp_def)

text \<open>The keys of the map come in ascending order, each once.\<close>

lemma keys_spec_map_ascending:
  "sorted_wrt (<) (map fst (spec_correlation_map corr a b L))"
proof -
  have "map fst (spec_correlation_map corr a b L) =
      filter (\<lambda>k. spec_joined a b (nat k) \<noteq> []) [1..L]"
    unfolding spec_correlation_map_def by (simp add: comp_def)
  then show ?thesis
    by (simp add: sorted_wrt_filter)
qed

lemma sample_frame_wf: "wf_frame sample_frame"
  by (simp add: sample_frame_def wf_frame_def)

lemma sample_frame_m2:
  "map_of (columns sample_frame) ''close_m2'' = Some [Val 1, Val 2, Val 4]"
  by (simp add: sample_frame_def)

lemma sample_frame_btc:
  "map_of (columns sample_frame) ''close_btc'' = Some [Val 5, Val 7, Val 8]"
  by (simp add: sample_frame_def)

lemma sample_joined_1:
  "spec_joined [Val 1, Val 2, Val 4] [Val 5, Val 7, Val 8] (nat 1) = [(Val 1, Val 7), (Val 2, Val 8)]"
  by (simp add: spec_joined_def spec_shift_back_def upt_rec nth_Cons')

lemma sample_joined_2:
  "spec_joined [Val 1, Val 2, Val 4] [Val 5, Val 7, Val 8] (nat 2) = [(Val 1, Val 8)]"
  by (simp add: spec_joined_def spec_shift_back_def upt_rec nth_Cons')

lemma sample_joined_3:
  "spec_joined [Val 1, Val 2, Val 4] [Val 5, Val 7, Val 8] (nat 3) = []"
  by (simp add: spec_joined_def spec_shift_back_def upt_rec nth_Cons')

lemma compute_keys_ascending:
  assumes "wf_frame df"
    and "map_of (columns df) ''close_m2'' = Some a"
    and "map_of (columns df) ''close_btc'' = Some b"
    and "compute_lag_correlations corr df L = Inr m"
  shows "sorted_wrt (<) (map fst m)"
  using compute_closed_form[OF assms(1,2,3), of corr L] assms(4)
  by (simp add: keys_spec_map_ascending)

text \<open>
  C1.  On every frame that holds the two value columns \<open>close_m2\<close> and \<open>close_btc\<close>, and for
  every maximum lag \<open>L\<close> (every positive one in particular), \<open>compute_lag_correlations\<close>
  returns a Correlation Map in which each lag \<open>k\<close> from 1 to \<open>L\<close> whose joined set is not
  empty is mapped to the coefficient of the two joined value columns, where the joined set
  is the first series inner-joined with the second series shifted backward by \<open>k\<close> rows
  (its value at row \<open>t + k\<close> on row \<open>t\<close>), without the rows that miss a value.  This holds
  for whatever the library computes as coefficient, so for the Pearson coefficient too.
\<close>

theorem compute_lag_correlations_per_lag:
  assumes "wf_frame df"
    and "map_of (columns df) ''close_m2'' = Some a"
    and "map_of (columns df) ''close_btc'' = Some b"
  shows "\<exists>m. compute_lag_correlations corr df L = Inr m \<and>
     (\<forall>k\<in>{1..L}. spec_joined a b (nat k) \<noteq> [] \<longrightarrow>
        dict_get m k =
          Some (corr (map fst (spec_joined a b (nat k))) (map snd (spec_joined a b (nat k)))))"
  using compute_closed_form[OF assms, of corr L] by (simp add: dict_get_spec_map)

theorem compute_lag_correlations_per_lag_witness:
  "wf_frame sample_frame \<and>
   map_of (columns sample_frame) ''close_m2'' = Some [Val 1, Val 2, Val 4] \<and>
   map_of (columns sample_frame) ''close_btc'' = Some [Val 5, Val 7, Val 8] \<and>
   (\<exists>m. compute_lag_correlations pearson sample_frame 2 = Inr m \<and>
        dict_get m 1 = Some (pearson [Val 1, Val 2] [Val 7, Val 8]) \<and>
        dict_get m 2 = Some (pearson [Val 1] [Val 8]))"
proof -
  from compute_lag_correlations_per_lag[OF sample_frame_wf sample_frame_m2 sample_frame_btc,
      of pearson 2]
  obtain m where m: "compute_lag_correlations pearson sample_frame 2 = Inr m"
    and per_lag: "\<forall>k\<in>{1..2}. spec_joined [Val 1, Val 2, Val 4] [Val 5, Val 7, Val 8] (nat k) \<noteq> [] \<longrightarrow>
        dict_get m k =
          Some (pearson (map fst (spec_joined [Val 1, Val 2, Val 4] [Val 5, Val 7, Val 8] (nat k)))
                        (map snd (spec_joined [Val 1, Val 2, Val 4] [Val 5, Val 7, Val 8] (nat k))))"
    by blast
  have "dict_get m 1 = Some (pearson [Val 1, Val 2] [Val 7, Val 8])"
    using per_lag[rule_format, of 1, unfolded sample_joined_1] by simp
  moreover have "dict_get m 2 = Some (pearson [Val 1] [Val 8])"
    using per_lag[rule_format, of 2, unfolded sample_joined_2] by simp
  ultimately have "dict_get m 1 = Some (pearson [Val 1, Val 2] [Val 7, Val 8]) \<and>
      dict_get m 2 = Some (pearson [Val 1] [Val 8])"
    by simp
  with m show ?thesis
    using sample_frame_wf sample_frame_m2 sample_frame_btc by blast
qed

text \<open>
  C7.  On every frame with the two value columns and for every \<open>L\<close>, the keys of the
  returned Correlation Map lie in \<open>{1, ..., L}\<close>, lag 0 is not a key, and a lag \<open>k\<close> of
  that range has no entry if and only if shifting by \<open>k\<close> leaves no overlapping row.
\<close>

theorem compute_lag_correlations_keys:
  assumes "wf_frame df"
    and "map_of (columns df) ''close_m2'' = Some a"
    and "map_of (columns df) ''close_btc'' = Some b"
  shows "\<exists>m. compute_lag_correlations corr df L = Inr m \<and>
     set (map fst m) \<subseteq> {1..L} \<and> 0 \<notin> set (map fst m) \<and>
     (\<forall>k\<in>{1..L}. (dict_get m k = None) = (spec_joined a b (nat k) = []))"
  using compute_closed_form[OF assms, of corr L]
  by (auto simp: dict_get_spec_map keys_spec_map simp del: set_map)

theorem compute_lag_correlations_keys_witness:
  "wf_frame sample_frame \<and>
   map_of (columns sample_frame) ''close_m2'' = Some [Val 1, Val 2, Val 4] \<and>
   map_of (columns sample_frame) ''close_btc'' = Some [Val 5, Val 7, Val 8] \<and>
   (\<exists>m. compute_lag_correlations pearson sample_frame 3 = Inr m \<and>
        set (map fst m) \<subseteq> {1..3} \<and> 0 \<notin> set (map fst m) \<and>
        dict_get m 2 \<noteq> None \<and> dict_get m 3 = None)"
proof -
  from compute_lag_correlations_keys[OF sample_frame_wf sample_frame_m2 sample_frame_btc,
      of pearson 3]
  obtain m where m: "compute_lag_correlations pearson sample_frame 3 = Inr m"
    "set (map fst m) \<subseteq> {1..3}" "0 \<notin> set (map fst m)"
    and absent: "\<forall>k\<in>{1..3}. (dict_get m k = None) =
        (spec_joined [Val 1, Val 2, Val 4] [Val 5, Val 7, Val 8] (nat k) = [])"
    by blast
  have "dict_get m 2 \<noteq> None"
    using absent[rule_format, of 2, unfolded sample_joined_2] by simp
  moreover have "dict_get m 3 = None"
    using absent[rule_format, of 3, unfolded sample_joined_3] by simp
  ultimately have "dict_get m 2 \<noteq> None \<and> dict_get m 3 = None"
    by simp
  with m show ?thesis
    using sample_frame_wf sample_frame_m2 sample_frame_btc by blast
qed

section \<open>The scan of \<open>max\<close>\<close>

lemma max_scan_nan_first:
  "key best = Some NaN \<Longrightarrow> \<forall>x\<in>set xs. key x \<noteq> None \<Longrightarrow> max_scan key best xs = Inr best"
proof (induction xs)
  case Nil
  then show ?case by simp
next
  case (Cons x xs)
  then obtain v where "key x = Some v" by auto
  then have "py_gt (key x) (key best) = Inr False"
    using Cons.prems(1) by (cases v) simp_all
  then show ?case using Cons by simp
qed

lemma max_scan_sorted:
  fixes best :: int
  shows "key best = Some (Val b) \<Longrightarrow> \<forall>x\<in>set xs. key x \<noteq> None \<Longrightarrow> sorted_wrt (<) (best # xs) \<Longrightarrow>
    \<exists>r M. max_scan key best xs = Inr r \<and> r \<in> set (best # xs) \<and> key r = Some (Val M) \<and>
       (\<forall>x\<in>set (best # xs). \<forall>v. key x = Some (Val v) \<longrightarrow> v \<le> M \<and> (v = M \<longrightarrow> r \<le> x))"
proof (induction xs arbitrary: best b)
  case Nil
  then show ?case by simp
next
  case (Cons x xs)
  from Cons.prems obtain c where c: "key x = Some c" by auto
  show ?case
  proof (cases "\<exists>v. c = Val v \<and> b < v")
    case True
    then obtain v where v: "c = Val v" "b < v" by auto
    have gt: "py_gt (key x) (key best) = Inr True"
      using c v Cons.prems(1) by simp
    have "sorted_wrt (<) (x # xs)" using Cons.prems(3) by simp
    from Cons.IH[of x v] this c v Cons.prems(2)
    obtain r M where r: "max_scan key x xs = Inr r" "r \<in> set (x # xs)" "key r = Some (Val M)"
      "\<forall>y\<in>set (x # xs). \<forall>w. key y = Some (Val w) \<longrightarrow> w \<le> M \<and> (w = M \<longrightarrow> r \<le> y)"
      by auto
    have "v \<le> M" using r(4) c v by auto
    then have "b \<le> M" "b \<noteq> M" using v by auto
    then show ?thesis using r gt Cons.prems(1) by auto
  next
    case False
    have gt: "py_gt (key x) (key best) = Inr False"
      using c False Cons.prems(1) by (cases c) auto
    have "sorted_wrt (<) (best # xs)" using Cons.prems(3) by auto
    from Cons.IH[of best b] this Cons.prems(1) Cons.prems(2)
    obtain r M where r: "max_scan key best xs = Inr r" "r \<in> set (best # xs)" "key r = Some (Val M)"
      "\<forall>y\<in>set (best # xs). \<forall>w. key y = Some (Val w) \<longrightarrow> w \<le> M \<and> (w = M \<longrightarrow> r \<le> y)"
      by auto
    have bM: "b \<le> M" "b = M \<longrightarrow> r \<le> best" using r(4) Cons.prems(1) by auto
    have bx: "best < x" using Cons.prems(3) by simp
    have "\<forall>w. key x = Some (Val w) \<longrightarrow> w \<le> M \<and> (w = M \<longrightarrow> r \<le> x)"
      using c False bM bx by auto
    then show ?thesis using r gt by auto
  qed
qed


lemma dict_get_key:
  "distinct (map fst m) \<Longrightarrow> (dict_get m k = Some v) = ((k, v) \<in> set m)"
  by (simp add: dict_get_def)

lemma dict_get_keys_defined: "\<forall>k\<in>set (map fst m). dict_get m k \<noteq> None"
  by (auto simp: dict_get_def map_of_eq_None_iff)

lemma dict_getitem_key:
  "distinct (map fst m) \<Longrightarrow> (k, v) \<in> set m \<Longrightarrow> dict_getitem m k = Inr v"
  by (simp add: dict_getitem_def)

lemma optimal_nan_first:
  assumes "sorted_wrt (<) (map fst m)" and "m = (k0, NaN) # rest"
  shows "optimal_lag_result m = Inr (k0, NaN)"
proof -
  have d: "distinct (map fst m)" using assms(1) strict_sorted_iff by blast
  have "dict_get m k0 = Some NaN" using d assms(2) by (simp add: dict_get_key)
  moreover have "\<forall>x\<in>set (map fst rest). dict_get m x \<noteq> None"
    using dict_get_keys_defined[of m] assms(2) by simp
  ultimately have "max_scan (dict_get m) k0 (map fst rest) = Inr k0"
    by (rule max_scan_nan_first)
  moreover have "dict_getitem m k0 = Inr NaN"
    using d assms(2) by (simp add: dict_getitem_key)
  ultimately show ?thesis
    by (simp add: optimal_lag_result_def py_max_def assms(2))
qed

lemma optimal_val_first:
  assumes "sorted_wrt (<) (map fst m)" and "m = (k0, Val b) # rest"
  shows "\<exists>k M. optimal_lag_result m = Inr (k, Val M) \<and> (k, Val M) \<in> set m \<and>
     (\<forall>e\<in>set m. \<forall>v. snd e = Val v \<longrightarrow> v \<le> M \<and> (v = M \<longrightarrow> k \<le> fst e))"
proof -
  have d: "distinct (map fst m)" using assms(1) strict_sorted_iff by blast
  have "dict_get m k0 = Some (Val b)" using d assms(2) by (simp add: dict_get_key)
  moreover have "\<forall>x\<in>set (map fst rest). dict_get m x \<noteq> None"
    using dict_get_keys_defined[of m] assms(2) by simp
  moreover have "sorted_wrt (<) (k0 # map fst rest)" using assms by simp
  ultimately obtain r M where r: "max_scan (dict_get m) k0 (map fst rest) = Inr r"
     "r \<in> set (k0 # map fst rest)" "dict_get m r = Some (Val M)"
     "\<forall>x\<in>set (k0 # map fst rest). \<forall>v. dict_get m x = Some (Val v) \<longrightarrow> v \<le> M \<and> (v = M \<longrightarrow> r \<le> x)"
    using max_scan_sorted[of "dict_get m" k0 b "map fst rest"] by blast
  have rin: "(r, Val M) \<in> set m" using r(3) d by (simp add: dict_get_key)
  then have gi: "dict_getitem m r = Inr (Val M)" using d by (simp add: dict_getitem_key)
  have "\<forall>e\<in>set m. \<forall>v. snd e = Val v \<longrightarrow> v \<le> M \<and> (v = M \<longrightarrow> r \<le> fst e)"
  proof (intro ballI allI impI)
    fix e v assume e: "e \<in> set m" "snd e = Val v"
    then have "(fst e, Val v) \<in> set m" by (metis prod.collapse)
    then have "dict_get m (fst e) = Some (Val v)" using d by (simp add: dict_get_key)
    moreover have "fst e \<in> set (k0 # map fst rest)" using e(1) assms(2) by auto
    ultimately show "v \<le> M \<and> (v = M \<longrightarrow> r \<le> fst e)" using r(4) by blast
  qed
  with rin gi r(1) show ?thesis
    by (auto simp: optimal_lag_result_def py_max_def assms(2))
qed

lemma set_finite_values: "set (finite_values m) = {v. \<exists>k. (k, Val v) \<in> set m}"
  by (induction m rule: finite_values.induct) auto

lemma spec_max_finite_eq:
  assumes "(k, Val M) \<in> set m" and "\<forall>e\<in>set m. \<forall>v. snd e = Val v \<longrightarrow> v \<le> M"
  shows "spec_max_finite m = M"
  unfolding spec_max_finite_def
proof (rule Max_eqI)
  show "finite (set (finite_values m))" by simp
  show "M \<in> set (finite_values m)" using assms(1) by (auto simp: set_finite_values)
  fix y assume "y \<in> set (finite_values m)"
  then show "y \<le> M" using assms(2) by (fastforce simp: set_finite_values)
qed

lemma spec_smallest_lag_eq:
  assumes "(k, Val M) \<in> set m" and "\<forall>e\<in>set m. snd e = Val M \<longrightarrow> k \<le> fst e"
  shows "spec_smallest_lag m M = k"
  unfolding spec_smallest_lag_def
proof (rule Min_eqI)
  show "finite (set (map fst (filter (\<lambda>e. snd e = Val M) m)))" by simp
  show "k \<in> set (map fst (filter (\<lambda>e. snd e = Val M) m))" using assms(1) by force
  fix y assume "y \<in> set (map fst (filter (\<lambda>e. snd e = Val M) m))"
  then show "k \<le> y" using assms(2) by auto
qed


text \<open>
  C3.  For every Correlation Map (lags ascending) whose coefficient at the smallest lag is
  not NaN, the undefined coefficients are excluded from the selection: the coefficient of
  the Optimal Lag Result is the maximum finite value present in the map, so never NaN.
\<close>

theorem optimal_lag_result_max_finite:
  assumes "sorted_wrt (<) (map fst m)" and "m \<noteq> []" and "snd (hd m) \<noteq> NaN"
  shows "\<exists>k. optimal_lag_result m = Inr (k, Val (spec_max_finite m)) \<and>
              (k, Val (spec_max_finite m)) \<in> set m"
proof (cases m)
  case Nil
  then show ?thesis
    using assms by simp
next
  case (Cons e rest)
  with assms(3) obtain b where "snd e = Val b"
    by (cases "snd e") auto
  then have "m = (fst e, Val b) # rest"
    using Cons by (metis prod.collapse)
  from optimal_val_first[OF assms(1) this]
  obtain k M where r: "optimal_lag_result m = Inr (k, Val M)" "(k, Val M) \<in> set m"
    "\<forall>e\<in>set m. \<forall>v. snd e = Val v \<longrightarrow> v \<le> M \<and> (v = M \<longrightarrow> k \<le> fst e)"
    by blast
  have "spec_max_finite m = M"
    using r(2,3) by (intro spec_max_finite_eq) auto
  then show ?thesis
    using r by simp
qed

theorem optimal_lag_result_max_finite_witness:
  "sorted_wrt (<) (map fst [(1::int, Val 0), (2, NaN), (3, Val (1 / 2))]) \<and>
   [(1::int, Val 0), (2, NaN), (3, Val (1 / 2))] \<noteq> [] \<and>
   snd (hd [(1::int, Val 0), (2, NaN), (3, Val (1 / 2))]) \<noteq> NaN \<and>
   optimal_lag_result [(1, Val 0), (2, NaN), (3, Val (1 / 2))] = Inr (3, Val (1 / 2))"
proof -
  have s: "sorted_wrt (<) (map fst [(1::int, Val 0), (2, NaN), (3, Val (1 / 2))])"
    by simp
  have mx: "spec_max_finite [(1, Val 0), (2, NaN), (3, Val (1 / 2))] = 1 / 2"
    by (simp add: spec_max_finite_def)
  from optimal_lag_result_max_finite[OF s] mx
  show ?thesis
    by auto
qed

theorem optimal_lag_result_nan_first_counterexample:
  "optimal_lag_result [(1, NaN), (2, Val (1 / 2))] = Inr (1, NaN) \<and>
   spec_max_finite [(1, NaN), (2, Val (1 / 2))] = 1 / 2"
  by (simp add: optimal_lag_result_def py_max_def dict_get_def dict_getitem_def
      spec_max_finite_def)

text \<open>
  C6.  For every Correlation Map (lags ascending) whose coefficient at the smallest lag is
  not NaN, the lag of the Optimal Lag Result is the smallest lag that attains the maximum
  finite coefficient; when two or more lags tie for it, the first of them in scan order.
\<close>

theorem optimal_lag_result_smallest_lag:
  assumes "sorted_wrt (<) (map fst m)" and "m \<noteq> []" and "snd (hd m) \<noteq> NaN"
  shows "\<exists>c. optimal_lag_result m = Inr (spec_smallest_lag m (spec_max_finite m), c)"
proof (cases m)
  case Nil
  then show ?thesis
    using assms by simp
next
  case (Cons e rest)
  with assms(3) obtain b where "snd e = Val b"
    by (cases "snd e") auto
  then have "m = (fst e, Val b) # rest"
    using Cons by (metis prod.collapse)
  from optimal_val_first[OF assms(1) this]
  obtain k M where r: "optimal_lag_result m = Inr (k, Val M)" "(k, Val M) \<in> set m"
    "\<forall>e\<in>set m. \<forall>v. snd e = Val v \<longrightarrow> v \<le> M \<and> (v = M \<longrightarrow> k \<le> fst e)"
    by blast
  have "spec_max_finite m = M"
    using r(2,3) by (intro spec_max_finite_eq) auto
  moreover have "spec_smallest_lag m M = k"
    using r(2,3) by (intro spec_smallest_lag_eq) auto
  ultimately show ?thesis
    using r(1) by simp
qed

theorem optimal_lag_result_smallest_lag_witness:
  "sorted_wrt (<) (map fst [(1::int, Val 0), (2, Val 1), (3, NaN), (4, Val 1)]) \<and>
   [(1::int, Val 0), (2, Val 1), (3, NaN), (4, Val 1)] \<noteq> [] \<and>
   snd (hd [(1::int, Val 0), (2, Val 1), (3, NaN), (4, Val 1)]) \<noteq> NaN \<and>
   (\<exists>c. optimal_lag_result [(1, Val 0), (2, Val 1), (3, NaN), (4, Val 1)] = Inr (2, c))"
proof -
  have s: "sorted_wrt (<) (map fst [(1::int, Val 0), (2, Val 1), (3, NaN), (4, Val 1)])"
    by simp
  have mx: "spec_max_finite [(1, Val 0), (2, Val 1), (3, NaN), (4, Val 1)] = 1"
    by (simp add: spec_max_finite_def)
  have lag: "spec_smallest_lag [(1, Val 0), (2, Val 1), (3, NaN), (4, Val 1)] 1 = 2"
    by (simp add: spec_smallest_lag_def)
  from optimal_lag_result_smallest_lag[OF s] mx lag
  show ?thesis
    by auto
qed

theorem optimal_lag_result_tie_counterexample:
  "optimal_lag_result [(1, NaN), (2, Val (1 / 2)), (3, Val (1 / 2))] = Inr (1, NaN) \<and>
   spec_smallest_lag [(1, NaN), (2, Val (1 / 2)), (3, Val (1 / 2))]
     (spec_max_finite [(1, NaN), (2, Val (1 / 2)), (3, Val (1 / 2))]) = 2"
  by (simp add: optimal_lag_result_def py_max_def dict_get_def dict_getitem_def
      spec_smallest_lag_def spec_max_finite_def)

section \<open>The range of the Pearson coefficient\<close>

lemma sum_list_quadratic:
  fixes f g :: "'a \<Rightarrow> real"
  shows "sum_list (map (\<lambda>p. (t * f p + g p)\<^sup>2) ps) =
     t\<^sup>2 * sum_list (map (\<lambda>p. f p * f p) ps) + 2 * t * sum_list (map (\<lambda>p. f p * g p) ps)
       + sum_list (map (\<lambda>p. g p * g p) ps)"
  by (induction ps) (simp_all add: power2_eq_square algebra_simps)

lemma sum_list_squares_nonneg:
  fixes h :: "'a \<Rightarrow> real"
  shows "0 \<le> sum_list (map (\<lambda>p. (h p)\<^sup>2) ps)"
  by (induction ps) simp_all

lemma cauchy_schwarz_list:
  fixes f g :: "'a \<Rightarrow> real"
  defines "A \<equiv> \<lambda>ps. sum_list (map (\<lambda>p. f p * f p) ps)"
    and "B \<equiv> \<lambda>ps. sum_list (map (\<lambda>p. g p * g p) ps)"
    and "C \<equiv> \<lambda>ps. sum_list (map (\<lambda>p. f p * g p) ps)"
  shows "(C ps)\<^sup>2 \<le> A ps * B ps"
proof -
  have q: "0 \<le> t\<^sup>2 * A ps + 2 * t * C ps + B ps" for t
    using sum_list_squares_nonneg[of "\<lambda>p. t * f p + g p" ps]
    by (simp add: sum_list_quadratic A_def B_def C_def)
  have A0: "0 \<le> A ps"
    using sum_list_squares_nonneg[of f ps] by (simp add: A_def power2_eq_square)
  have B0: "0 \<le> B ps"
    using sum_list_squares_nonneg[of g ps] by (simp add: B_def power2_eq_square)
  show ?thesis
  proof (cases "A ps = 0")
    case True
    have "C ps = 0"
    proof (rule ccontr)
      assume c: "C ps \<noteq> 0"
      have "2 * (- (B ps + 1) / (2 * C ps)) * C ps = - (B ps + 1)" using c by simp
      with q[of "- (B ps + 1) / (2 * C ps)"] True
      have "0 \<le> - (B ps + 1) + B ps" by simp
      then show False by simp
    qed
    then show ?thesis using True by simp
  next
    case False
    then have Apos: "0 < A ps" using A0 by simp
    from q[of "- C ps / A ps"]
    have "0 \<le> (C ps)\<^sup>2 / (A ps)\<^sup>2 * A ps - 2 * (C ps * C ps) / A ps + B ps"
      by (simp add: power_divide power2_eq_square)
    also have "(C ps)\<^sup>2 / (A ps)\<^sup>2 * A ps = (C ps)\<^sup>2 / A ps"
      using False by (simp add: power2_eq_square)
    finally have "0 \<le> B ps - (C ps)\<^sup>2 / A ps" by (simp add: power2_eq_square)
    then have "(C ps)\<^sup>2 / A ps \<le> B ps" by simp
    then have "(C ps)\<^sup>2 \<le> B ps * A ps" using Apos by (simp add: pos_divide_le_eq)
    then show ?thesis by (simp add: mult.commute)
  qed
qed

lemma covariance_pairs:
  "covariance (map fst ps) (map snd ps) =
     sum_list (map (\<lambda>p. (fst p - mean (map fst ps)) * (snd p - mean (map snd ps))) ps)
       / (real (length ps) - 1)"
  by (simp add: covariance_def zip_map_fst_snd)

lemma covariance_self:
  "covariance (map h ps) (map h ps) =
     sum_list (map (\<lambda>p. (h p - mean (map h ps)) * (h p - mean (map h ps))) ps)
       / (real (length ps) - 1)"
  by (simp add: covariance_def zip_same_conv_map comp_def)

lemma covariance_cauchy_schwarz:
  assumes "2 \<le> length ps"
  shows "(covariance (map fst ps) (map snd ps))\<^sup>2 \<le>
     covariance (map fst ps) (map fst ps) * covariance (map snd ps) (map snd ps)"
proof -
  let ?f = "\<lambda>p. fst p - mean (map fst ps)" and ?g = "\<lambda>p. snd p - mean (map snd ps)"
  let ?d = "real (length ps) - 1"
  have d: "0 < ?d" using assms by simp
  have "(sum_list (map (\<lambda>p. ?f p * ?g p) ps))\<^sup>2 \<le>
      sum_list (map (\<lambda>p. ?f p * ?f p) ps) * sum_list (map (\<lambda>p. ?g p * ?g p) ps)"
    by (rule cauchy_schwarz_list)
  then have "(sum_list (map (\<lambda>p. ?f p * ?g p) ps))\<^sup>2 / (?d * ?d) \<le>
      sum_list (map (\<lambda>p. ?f p * ?f p) ps) * sum_list (map (\<lambda>p. ?g p * ?g p) ps) / (?d * ?d)"
    using d by (intro divide_right_mono) simp_all
  then show ?thesis
    unfolding covariance_pairs covariance_self[of fst] covariance_self[of snd]
    by (simp add: power_divide power2_eq_square)
qed

lemma covariance_self_nonneg: "2 \<le> length ps \<Longrightarrow> 0 \<le> covariance (map h ps) (map h ps)"
proof -
  assume "2 \<le> length ps"
  then have "0 < real (length ps) - 1" by simp
  moreover have "0 \<le> sum_list (map (\<lambda>p. (h p - mean (map h ps)) * (h p - mean (map h ps))) ps)"
    using sum_list_squares_nonneg[of "\<lambda>p. h p - mean (map h ps)" ps] by (simp add: power2_eq_square)
  ultimately show ?thesis unfolding covariance_self by simp
qed

lemma pearson_range:
  "pearson xs ys = NaN \<or> (\<exists>r. pearson xs ys = Val r \<and> - 1 \<le> r \<and> r \<le> 1)"
proof -
  let ?ps = "valid_pairs xs ys"
  let ?us = "map fst ?ps" and ?vs = "map snd ?ps"
  show ?thesis
  proof (cases "length ?ps < 2 \<or> covariance ?us ?us = 0 \<or> covariance ?vs ?vs = 0")
    case True
    then have "pearson xs ys = NaN" by (auto simp: pearson_def Let_def)
    then show ?thesis by simp
  next
    case False
    then have n: "2 \<le> length ?ps" by simp
    have uu: "0 < covariance ?us ?us" and vv: "0 < covariance ?vs ?vs"
      using False covariance_self_nonneg[OF n, of fst] covariance_self_nonneg[OF n, of snd]
      by auto
    define r where "r = covariance ?us ?vs / (std ?us * std ?vs)"
    have p: "pearson xs ys = Val r" using False by (simp add: pearson_def Let_def r_def)
    have den: "std ?us * std ?vs = sqrt (covariance ?us ?us * covariance ?vs ?vs)"
      by (simp add: std_def real_sqrt_mult)
    have dpos: "0 < sqrt (covariance ?us ?us * covariance ?vs ?vs)" using uu vv by simp
    have "\<bar>covariance ?us ?vs\<bar> = sqrt ((covariance ?us ?vs)\<^sup>2)" by simp
    also have "\<dots> \<le> sqrt (covariance ?us ?us * covariance ?vs ?vs)"
      using covariance_cauchy_schwarz[OF n] by (simp only: real_sqrt_le_iff)
    finally have "\<bar>r\<bar> \<le> 1" using dpos unfolding r_def den by simp
    then have "- 1 \<le> r \<and> r \<le> 1" by linarith
    then show ?thesis using p by simp
  qed
qed


lemma covariance_two:
  "covariance [x1, x2] [y1, y2] = (x1 - x2) * (y1 - y2) / 2"
  by (simp add: covariance_def mean_def field_simps)

lemma pearson_two:
  "pearson [Val x1, Val x2] [Val y1, Val y2] =
     (if x1 = x2 \<or> y1 = y2 then NaN else Val (sgn ((x1 - x2) * (y1 - y2))))"
proof -
  have s: "std [x1, x2] * std [y1, y2] = \<bar>(x1 - x2) * (y1 - y2)\<bar> / 2"
  proof -
    have "std [x1, x2] * std [y1, y2] = sqrt (((x1 - x2) * (y1 - y2) / 2)\<^sup>2)"
      unfolding std_def covariance_two real_sqrt_mult[symmetric]
      by (simp add: power2_eq_square)
    then show ?thesis by simp
  qed
  show ?thesis
  proof (cases "x1 = x2 \<or> y1 = y2")
    case True
    then show ?thesis by (auto simp: pearson_def covariance_two)
  next
    case False
    then have nz: "(x1 - x2) * (y1 - y2) \<noteq> 0" by simp
    have "covariance [x1, x2] [y1, y2] / (std [x1, x2] * std [y1, y2]) = sgn ((x1 - x2) * (y1 - y2))"
      unfolding s covariance_two using nz by (simp add: sgn_real_def)
    then show ?thesis using False by (simp add: pearson_def covariance_two)
  qed
qed

lemma set_dict_set: "set (dict_set d k v) \<subseteq> insert (k, v) (set d)"
  by (induction d) (auto split: if_splits)

lemma lag_body_values:
  assumes "\<And>xs ys. P (corr xs ys)" and "\<forall>e\<in>set acc. P (snd e)"
    and "lag_body corr df acc k = Inr acc'"
  shows "\<forall>e\<in>set acc'. P (snd e)"
proof -
  from assms(3) consider "acc' = acc" | xs ys where "acc' = dict_set acc k (corr xs ys)"
    unfolding lag_body_def by (auto simp: Let_def split: sum.splits if_splits)
  then show ?thesis
  proof cases
    case 1
    then show ?thesis using assms(2) by simp
  next
    case 2
    then show ?thesis using assms(1,2) set_dict_set[of acc k "corr xs ys"] by auto
  qed
qed

lemma lag_loop_values:
  assumes "\<And>xs ys. P (corr xs ys)"
  shows "\<forall>e\<in>set acc. P (snd e) \<Longrightarrow> lag_loop corr df ks acc = Inr m \<Longrightarrow> \<forall>e\<in>set m. P (snd e)"
proof (induction ks arbitrary: acc)
  case Nil
  then show ?case by simp
next
  case (Cons k ks)
  from Cons.prems(2) obtain acc' where b: "lag_body corr df acc k = Inr acc'"
    and l: "lag_loop corr df ks acc' = Inr m"
    by (auto split: sum.splits)
  from lag_body_values[OF assms Cons.prems(1) b] have "\<forall>e\<in>set acc'. P (snd e)" .
  from Cons.IH[OF this l] show ?case .
qed


text \<open>
  C9.  Every coefficient stored in the Correlation Map is NaN or lies in the interval from
  \<open>- 1\<close> to 1.
\<close>

theorem correlation_map_coefficients_in_range:
  assumes "compute_lag_correlations pearson df L = Inr m"
  shows "\<forall>e\<in>set m. snd e = NaN \<or> (\<exists>r. snd e = Val r \<and> - 1 \<le> r \<and> r \<le> 1)"
  using lag_loop_values[of "\<lambda>c. c = NaN \<or> (\<exists>r. c = Val r \<and> - 1 \<le> r \<and> r \<le> 1)"
      pearson "[]" df "[1..L]" m] pearson_range assms
  by (simp add: compute_lag_correlations_def)

lemma sample_frame_map:
  "compute_lag_correlations corr sample_frame 2 =
     Inr [(1, corr [Val 1, Val 2] [Val 7, Val 8]), (2, corr [Val 1] [Val 8])]"
  unfolding compute_closed_form[OF sample_frame_wf sample_frame_m2 sample_frame_btc]
  by (simp add: spec_correlation_map_def upto_rec1 sample_joined_1[simplified]
      sample_joined_2[simplified])

lemma pearson_single: "pearson [Val x] [Val y] = NaN"
  by (simp add: pearson_def)

lemma sample_frame_pearson_map:
  "compute_lag_correlations pearson sample_frame 2 = Inr [(1, Val 1), (2, NaN)]"
  by (simp add: sample_frame_map pearson_two pearson_single)

theorem correlation_map_coefficients_in_range_witness:
  "compute_lag_correlations pearson sample_frame 2 = Inr [(1, Val 1), (2, NaN)] \<and>
   (\<exists>r. snd (1::int, Val 1) = Val r \<and> - 1 \<le> r \<and> r \<le> 1) \<and>
   snd (2::int, NaN) = NaN"
  using correlation_map_coefficients_in_range[OF sample_frame_pearson_map]
    sample_frame_pearson_map
  by simp

text \<open>
  C10.  For every lag of the range at which exactly two rows overlap after shifting and
  joining, the sweep returns normally and the Correlation Map has an entry for that lag:
  a perfect \<open>1\<close> or \<open>- 1\<close>, or NaN.
\<close>

theorem two_overlapping_rows_entry:
  assumes "wf_frame df"
    and "map_of (columns df) ''close_m2'' = Some a"
    and "map_of (columns df) ''close_btc'' = Some b"
    and "1 \<le> k" and "k \<le> L"
    and "length (spec_joined a b (nat k)) = 2"
  shows "\<exists>m c. compute_lag_correlations pearson df L = Inr m \<and> dict_get m k = Some c \<and>
     (c = Val 1 \<or> c = Val (- 1) \<or> c = NaN) \<and>
     (c = NaN) = (fst (spec_joined a b (nat k) ! 0) = fst (spec_joined a b (nat k) ! 1) \<or>
                  snd (spec_joined a b (nat k) ! 0) = snd (spec_joined a b (nat k) ! 1))"
proof -
  let ?J = "spec_joined a b (nat k)"
  from assms(6) obtain r1 r2 where J: "?J = [r1, r2]"
    by (auto simp: length_Suc_conv numeral_2_eq_2)
  have "\<forall>r\<in>set ?J. fst r \<noteq> NaN \<and> snd r \<noteq> NaN"
    by (simp add: spec_joined_def)
  with J obtain x1 y1 x2 y2 where r: "r1 = (Val x1, Val y1)" "r2 = (Val x2, Val y2)"
    by (cases r1; cases r2; cases "fst r1"; cases "snd r1"; cases "fst r2"; cases "snd r2") auto
  have p: "pearson (map fst ?J) (map snd ?J) =
      (if x1 = x2 \<or> y1 = y2 then NaN else Val (sgn ((x1 - x2) * (y1 - y2))))"
    unfolding J r by (simp add: pearson_two)
  have "sgn ((x1 - x2) * (y1 - y2)) = 1 \<or> sgn ((x1 - x2) * (y1 - y2)) = - 1"
    if "x1 \<noteq> x2" "y1 \<noteq> y2"
    using that by (simp add: sgn_real_def)
  with p have "pearson (map fst ?J) (map snd ?J) = Val 1 \<or>
      pearson (map fst ?J) (map snd ?J) = Val (- 1) \<or> pearson (map fst ?J) (map snd ?J) = NaN"
    by auto
  moreover have "(pearson (map fst ?J) (map snd ?J) = NaN) =
      (fst (?J ! 0) = fst (?J ! 1) \<or> snd (?J ! 0) = snd (?J ! 1))"
    unfolding p unfolding J r by simp
  moreover have "dict_get (spec_correlation_map pearson a b L) k =
      Some (pearson (map fst ?J) (map snd ?J))"
    using assms(4,5) J by (simp add: dict_get_spec_map)
  ultimately show ?thesis
    using compute_closed_form[OF assms(1,2,3), of pearson L] by auto
qed

theorem two_overlapping_rows_entry_witness:
  "wf_frame sample_frame \<and>
   map_of (columns sample_frame) ''close_m2'' = Some [Val 1, Val 2, Val 4] \<and>
   map_of (columns sample_frame) ''close_btc'' = Some [Val 5, Val 7, Val 8] \<and>
   (1::int) \<le> 1 \<and> (1::int) \<le> 2 \<and>
   length (spec_joined [Val 1, Val 2, Val 4] [Val 5, Val 7, Val 8] (nat 1)) = 2 \<and>
   (\<exists>m c. compute_lag_correlations pearson sample_frame 2 = Inr m \<and> dict_get m 1 = Some c \<and>
      (c = Val 1 \<or> c = Val (- 1) \<or> c = NaN) \<and> c \<noteq> NaN)"
proof -
  have l: "length (spec_joined [Val 1, Val 2, Val 4] [Val 5, Val 7, Val 8] (nat 1)) = 2"
    unfolding sample_joined_1 by simp
  from two_overlapping_rows_entry[OF sample_frame_wf sample_frame_m2 sample_frame_btc _ _ l,
      of 2]
  have "\<exists>m c. compute_lag_correlations pearson sample_frame 2 = Inr m \<and> dict_get m 1 = Some c \<and>
      (c = Val 1 \<or> c = Val (- 1) \<or> c = NaN) \<and> c \<noteq> NaN"
    unfolding sample_joined_1 by simp
  then show ?thesis
    using sample_frame_wf sample_frame_m2 sample_frame_btc l by simp
qed

section \<open>Missing column, empty map, empty range\<close>

lemma rename_column_names:
  "map fst (columns (rename_column old new df)) =
     map (\<lambda>n. if n = old then new else n) (map fst (columns df))"
  by (simp add: rename_column_def comp_def)

lemma merge_inner_names:
  "map fst (columns (merge_inner l r)) = map fst (columns l) @ map fst (columns r)"
  by (simp add: merge_inner_def Let_def comp_def)

lemma merged_frame_names:
  assumes "map fst (columns df_m2) = [''close'']" and "map fst (columns df_stock) = [''close'']"
  shows "map fst (columns (merged_frame df_m2 df_stock)) = [''close_m2'', ''close_stock'']"
  using assms by (simp add: merged_frame_def merge_inner_names rename_column_names)

lemma lag_body_missing_btc:
  "map_of (columns df) ''close_btc'' = None \<Longrightarrow>
     lag_body corr df acc k = Inl (KeyError (PyStr ''close_btc''))"
  by (simp add: lag_body_def getitem_def)

lemma compute_missing_btc:
  assumes "map_of (columns df) ''close_btc'' = None" and "1 \<le> L"
  shows "compute_lag_correlations corr df L = Inl (KeyError (PyStr ''close_btc''))"
proof -
  have "[1..L] = 1 # [2..L]"
    using assms(2) by (simp add: upto_rec1)
  then show ?thesis
    using lag_body_missing_btc[OF assms(1)] by (simp add: compute_lag_correlations_def)
qed

lemma compute_nonpositive: "L \<le> 0 \<Longrightarrow> compute_lag_correlations corr df L = Inr []"
  by (simp add: compute_lag_correlations_def)

lemma optimal_lag_result_empty: "optimal_lag_result [] = Inl ValueError"
  by (simp add: optimal_lag_result_def py_max_def)

text \<open>
  C2.  The merged frame that \<open>plot_data\<close> builds from the two loaded frames has the value
  columns \<open>close_m2\<close> and \<open>close_stock\<close>; on it, for every maximum lag of at least 1,
  \<open>compute_lag_correlations\<close> raises \<open>KeyError\<close> for the column \<open>close_btc\<close>, and so does
  \<open>plot_data\<close>: no request made through it receives a Correlation Map.
\<close>

theorem plot_data_key_error:
  assumes "map fst (columns df_m2) = [''close'']" and "map fst (columns df_stock) = [''close'']"
  shows "map fst (columns (merged_frame df_m2 df_stock)) = [''close_m2'', ''close_stock''] \<and>
     (\<forall>L\<ge>1. compute_lag_correlations corr (merged_frame df_m2 df_stock) L =
        Inl (KeyError (PyStr ''close_btc''))) \<and>
     plot_data corr df_m2 df_stock = Inl (KeyError (PyStr ''close_btc''))"
proof -
  have n: "map fst (columns (merged_frame df_m2 df_stock)) = [''close_m2'', ''close_stock'']"
    using assms by (rule merged_frame_names)
  then have "''close_btc'' \<notin> fst ` set (columns (merged_frame df_m2 df_stock))"
    by (simp flip: set_map)
  then have none: "map_of (columns (merged_frame df_m2 df_stock)) ''close_btc'' = None"
    by (simp add: map_of_eq_None_iff)
  have all: "\<forall>L\<ge>1. compute_lag_correlations corr (merged_frame df_m2 df_stock) L =
      Inl (KeyError (PyStr ''close_btc''))"
    using compute_missing_btc[OF none] by blast
  then have "plot_data corr df_m2 df_stock = Inl (KeyError (PyStr ''close_btc''))"
    by (simp add: plot_data_def analyze_def MAX_LAG_def)
  with n all show ?thesis
    by blast
qed

theorem plot_data_key_error_witness:
  "map fst (columns loaded_m2) = [''close''] \<and> map fst (columns loaded_stock) = [''close''] \<and>
   map fst (columns (merged_frame loaded_m2 loaded_stock)) = [''close_m2'', ''close_stock''] \<and>
   compute_lag_correlations pearson (merged_frame loaded_m2 loaded_stock) 180 =
     Inl (KeyError (PyStr ''close_btc'')) \<and>
   plot_data pearson loaded_m2 loaded_stock = Inl (KeyError (PyStr ''close_btc''))"
proof -
  have a: "map fst (columns loaded_m2) = [''close'']"
    by (simp add: loaded_m2_def)
  have b: "map fst (columns loaded_stock) = [''close'']"
    by (simp add: loaded_stock_def)
  from plot_data_key_error[OF a b, of pearson] a b show ?thesis
    by simp
qed

text \<open>
  C4.  If no lag from 1 to \<open>L\<close> produces an overlapping row, the Correlation Map is empty,
  the selection is still applied to it, and the caller receives the \<open>ValueError\<close> that
  \<open>max\<close> raises on an empty iterable: not a key or index lookup failure, and not an error
  of the Analyzer's own.
\<close>

theorem analyze_no_overlap_value_error:
  assumes "wf_frame df"
    and "map_of (columns df) ''close_m2'' = Some a"
    and "map_of (columns df) ''close_btc'' = Some b"
    and "\<forall>k\<in>{1..L}. spec_joined a b (nat k) = []"
  shows "compute_lag_correlations corr df L = Inr [] \<and> analyze corr df L = Inl ValueError"
proof -
  have "filter (\<lambda>k. spec_joined a b (nat k) \<noteq> []) [1..L] = []"
    using assms(4) by (simp add: filter_empty_conv)
  then have "spec_correlation_map corr a b L = []"
    by (simp add: spec_correlation_map_def)
  then have "compute_lag_correlations corr df L = Inr []"
    using compute_closed_form[OF assms(1,2,3), of corr L] by simp
  then show ?thesis
    by (simp add: analyze_def optimal_lag_result_empty)
qed

theorem analyze_no_overlap_value_error_witness:
  "wf_frame no_overlap_frame \<and>
   map_of (columns no_overlap_frame) ''close_m2'' = Some [Val 1, Val 2] \<and>
   map_of (columns no_overlap_frame) ''close_btc'' = Some [Val 3, NaN] \<and>
   spec_joined [Val 1, Val 2] [Val 3, NaN] (nat 1) = [] \<and>
   spec_joined [Val 1, Val 2] [Val 3, NaN] (nat 2) = [] \<and>
   compute_lag_correlations pearson no_overlap_frame 2 = Inr [] \<and>
   analyze pearson no_overlap_frame 2 = Inl ValueError"
proof -
  have wf: "wf_frame no_overlap_frame"
    by (simp add: no_overlap_frame_def wf_frame_def)
  have a: "map_of (columns no_overlap_frame) ''close_m2'' = Some [Val 1, Val 2]"
    by (simp add: no_overlap_frame_def)
  have b: "map_of (columns no_overlap_frame) ''close_btc'' = Some [Val 3, NaN]"
    by (simp add: no_overlap_frame_def)
  have "spec_joined [Val 1, Val 2] [Val 3, NaN] (nat k) = []" if "k \<in> {1..2}" for k :: int
  proof -
    from that have "k = 1 \<or> k = 2"
      by auto
    then show ?thesis
      by (auto simp: spec_joined_def spec_shift_back_def upt_rec nth_Cons')
  qed
  then have e: "\<forall>k\<in>{1..2}. spec_joined [Val 1, Val 2] [Val 3, NaN] (nat k) = []"
    by blast
  have "(1::int) \<in> {1..2}" and "(2::int) \<in> {1..2}"
    by simp_all
  with e have "spec_joined [Val 1, Val 2] [Val 3, NaN] (nat 1) = []"
    and "spec_joined [Val 1, Val 2] [Val 3, NaN] (nat 2) = []"
    by blast+
  with analyze_no_overlap_value_error[OF wf a b e, of pearson] wf a b show ?thesis
    by blast
qed

theorem analyze_empty_map_counterexample:
  "compute_lag_correlations pearson single_row_frame 1 = Inr [] \<and>
   optimal_lag_result [] = Inl ValueError \<and>
   analyze pearson single_row_frame 1 = Inl ValueError"
  by (simp add: analyze_def optimal_lag_result_def py_max_def compute_lag_correlations_def
      upto_rec1 lag_body_def getitem_def shift_def concat_axis1_def dropna_def row_complete_def
      notna_def take_rows_def frame_empty_def Let_def single_row_frame_def)

text \<open>
  C5.  For every maximum lag \<open>L\<close> that is not positive (\<open>L = 0\<close> in particular),
  \<open>compute_lag_correlations\<close> signals no error: the loop body never runs, no column is
  read, and the empty Correlation Map is returned.  The selection over that empty map then
  raises the \<open>ValueError\<close> of \<open>max\<close>.
\<close>

theorem compute_lag_correlations_nonpositive:
  assumes "L \<le> 0"
  shows "compute_lag_correlations corr df L = Inr [] \<and> analyze corr df L = Inl ValueError"
  using compute_nonpositive[OF assms, of corr df]
  by (simp add: analyze_def optimal_lag_result_empty)

theorem compute_lag_correlations_nonpositive_witness:
  "(0::int) \<le> 0 \<and> compute_lag_correlations pearson loaded_m2 0 = Inr [] \<and>
   analyze pearson loaded_m2 0 = Inl ValueError"
  using compute_lag_correlations_nonpositive[of 0 pearson loaded_m2] by simp

theorem compute_lag_correlations_zero_counterexample:
  "compute_lag_correlations pearson sample_frame 0 = Inr []"
  by (simp add: compute_lag_correlations_def)

end
